theory Spec2Isabelle
  imports Main "HOL-Library.AList"
begin

section \<open>JavaScript values\<close>

text \<open>
  The values that flow through \<^verbatim>\<open>src/index.ts\<close>: identifiers, targets, member keys and
  decorator arguments are all typed \<^verbatim>\<open>any\<close>. A function object (a class, a factory method,
  a reflected type such as \<^verbatim>\<open>String\<close>) carries an identity and its \<^verbatim>\<open>name\<close>; \<open>Proto\<close> is the
  \<^verbatim>\<open>prototype\<close> object of a function; \<open>PropDesc v g s\<close> is a property descriptor
  \<^verbatim>\<open>{value: v, get: g, set: s}\<close>. Numbers are the integers decorators pass as parameter
  indices. Class inheritance is not modelled, so looking metadata up never walks a
  prototype chain.
\<close>

datatype jsval =
    Undefined
  | Null
  | Bool bool
  | Num int
  | Str string
  | Sym string
  | Fn nat string
  | Proto nat string
  | Obj nat
  | PropDesc jsval jsval jsval

text \<open>JavaScript truthiness, as used by \<^verbatim>\<open>a || b\<close>, \<^verbatim>\<open>!a\<close> and \<^verbatim>\<open>if (a)\<close>.\<close>

fun truthy :: "jsval \<Rightarrow> bool" where
  "truthy Undefined = False"
| "truthy Null = False"
| "truthy (Bool b) = b"
| "truthy (Num n) = (n \<noteq> 0)"
| "truthy (Str s) = (s \<noteq> [])"
| "truthy _ = True"

text \<open>\<^verbatim>\<open>a || b\<close>\<close>

definition or_else :: "jsval \<Rightarrow> jsval \<Rightarrow> jsval" where
  "or_else a b = (if truthy a then a else b)"

text \<open>Values \<^verbatim>\<open>Reflect.getMetadata\<close> accepts as a target; any other target is a TypeError.\<close>

fun is_object :: "jsval \<Rightarrow> bool" where
  "is_object (Fn _ _) = True"
| "is_object (Proto _ _) = True"
| "is_object (Obj _) = True"
| "is_object (PropDesc _ _ _) = True"
| "is_object _ = False"

datatype ResolverType = TYPE' | FACTORY | INSTANCE | OTHER nat

datatype error =
    TypeError
  | MissingIdentifierError jsval
  | UnknownKindError ResolverType
  | Rejected jsval

text \<open>Property reads. Reading a property of \<^verbatim>\<open>undefined\<close> or \<^verbatim>\<open>null\<close> throws a TypeError.\<close>

fun name_of :: "jsval \<Rightarrow> error + jsval" where
  "name_of Undefined = Inl TypeError"
| "name_of Null = Inl TypeError"
| "name_of (Fn _ n) = Inr (Str n)"
| "name_of _ = Inr Undefined"

fun prototype_of :: "jsval \<Rightarrow> error + jsval" where
  "prototype_of Undefined = Inl TypeError"
| "prototype_of Null = Inl TypeError"
| "prototype_of (Fn i n) = Inr (Proto i n)"
| "prototype_of _ = Inr Undefined"

fun value_of :: "jsval \<Rightarrow> error + jsval" where
  "value_of Undefined = Inl TypeError"
| "value_of Null = Inl TypeError"
| "value_of (PropDesc v _ _) = Inr v"
| "value_of _ = Inr Undefined"

text \<open>\<^verbatim>\<open>descriptor.get\<close> and \<^verbatim>\<open>descriptor.set\<close>, read only behind \<^verbatim>\<open>descriptor &&\<close>.\<close>

fun get_of :: "jsval \<Rightarrow> jsval" where
  "get_of (PropDesc _ g _) = g"
| "get_of _ = Undefined"

fun set_of :: "jsval \<Rightarrow> jsval" where
  "set_of (PropDesc _ _ s) = s"
| "set_of _ = Undefined"

section \<open>Descriptors, the heap and the registry\<close>

text \<open>
  \<^verbatim>\<open>class ResolverMeta\<close>. Descriptors are shared mutable objects (the same object sits in
  the reflection metadata of its declaration site, in the registry and in its owner's
  \<^verbatim>\<open>deps\<close>), so they live in a heap and are named by reference. \<^verbatim>\<open>deps\<close> is a JavaScript
  array: assigning past its end leaves holes, written \<open>None\<close>. The fields \<^verbatim>\<open>id\<close>,
  \<^verbatim>\<open>target\<close>, \<^verbatim>\<open>type\<close> and \<^verbatim>\<open>lifeCycle\<close> carry a prime, the plain names being taken; so
  does the constructor \<open>TYPE'\<close> of \<^verbatim>\<open>ResolverType.TYPE\<close>.
\<close>

record ResolverMeta =
  id' :: jsval
  target' :: jsval
  type' :: ResolverType
  lifeCycle' :: jsval
  deps :: "nat option list"
  metaKey :: jsval

text \<open>
  The host environment the code reads and never writes: the reflected
  \<^verbatim>\<open>design:paramtypes\<close> (\<open>None\<close> when no metadata was emitted) and \<^verbatim>\<open>design:returntype\<close> of a
  declaration site, the current value \<^verbatim>\<open>target[key]\<close> of a member, and the container
  library's constant \<^verbatim>\<open>LifeCycle.SINGLETON\<close>.
\<close>

record host =
  paramtypes :: "jsval \<Rightarrow> jsval \<Rightarrow> jsval list option"
  returntype :: "jsval \<Rightarrow> jsval \<Rightarrow> jsval"
  member_value :: "jsval \<Rightarrow> jsval \<Rightarrow> jsval"
  SINGLETON :: jsval

text \<open>\<^verbatim>\<open>new ResolverMeta()\<close>: the field initialisers of the class.\<close>

definition new_ResolverMeta :: "host \<Rightarrow> ResolverMeta" where
  "new_ResolverMeta h =
     \<lparr> id' = Undefined, target' = Undefined, type' = TYPE', lifeCycle' = SINGLETON h,
       deps = [], metaKey = Undefined \<rparr>"

section \<open>The container\<close>

text \<open>
  Modelled from the spec: the injection container \<^verbatim>\<open>Opium\<close> of the library
  \<^verbatim>\<open>opium-ioc\<close>, whose code is not part of this repository. Section 6 of the spec gives
  its interface: \<^verbatim>\<open>registerFactory(identifier, producerFn, depIdentifiers, lifecycle)\<close>,
  \<^verbatim>\<open>registerInstance(identifier, value, depIdentifiers, lifecycle)\<close> and
  \<^verbatim>\<open>getDep(identifier)\<close>, which is undefined when nothing is registered under the
  identifier. A container is the record of the registration calls made on it, the most
  recent first; the handle \<^verbatim>\<open>getDep\<close> returns is the registration itself.

  A producer is either the declared factory function, or the closure the registrar builds
  for a constructed type, which captures \<^verbatim>\<open>dep.target\<close> and the descriptor \<^verbatim>\<open>depMeta\<close> found
  for the target's prototype.
\<close>

datatype producer =
    Target jsval
  | Construct jsval "nat option"

datatype registration =
    RegFactory jsval producer "jsval option list" jsval
  | RegInstance jsval jsval "jsval option list" jsval

fun reg_id :: "registration \<Rightarrow> jsval" where
  "reg_id (RegFactory i _ _ _) = i"
| "reg_id (RegInstance i _ _ _) = i"

record Opium =
  opium_name :: jsval
  opium_lifeCycle :: jsval
  registrations :: "registration list"

definition new_Opium :: "jsval \<Rightarrow> jsval \<Rightarrow> Opium" where
  "new_Opium n lc = \<lparr> opium_name = n, opium_lifeCycle = lc, registrations = [] \<rparr>"

definition getDep :: "Opium \<Rightarrow> jsval \<Rightarrow> registration option" where
  "getDep c i = find (\<lambda>r. reg_id r = i) (registrations c)"

definition registerFactory ::
  "Opium \<Rightarrow> jsval \<Rightarrow> producer \<Rightarrow> jsval option list \<Rightarrow> jsval \<Rightarrow> Opium" where
  "registerFactory c i p ds lc = c\<lparr> registrations := RegFactory i p ds lc # registrations c \<rparr>"

definition registerInstance ::
  "Opium \<Rightarrow> jsval \<Rightarrow> jsval \<Rightarrow> jsval option list \<Rightarrow> jsval \<Rightarrow> Opium" where
  "registerInstance c i v ds lc = c\<lparr> registrations := RegInstance i v ds lc # registrations c \<rparr>"

definition registered_ids :: "Opium \<Rightarrow> jsval set" where
  "registered_ids c = reg_id ` set (registrations c)"

section \<open>The module state\<close>

text \<open>
  \<open>heap\<close> and \<open>nextref\<close> are the descriptor objects allocated so far, \<open>meta\<close> the
  \<^verbatim>\<open>OPIUM_META\<close> reflection metadata by declaration site \<open>(target, key)\<close>, \<open>registry\<close> the
  module's \<^verbatim>\<open>registry\<close> map in insertion order, \<open>container\<close> the module variable
  \<^verbatim>\<open>container\<close> (\<open>None\<close> is \<^verbatim>\<open>null\<close>).
\<close>

record world =
  heap :: "nat \<Rightarrow> ResolverMeta"
  nextref :: nat
  meta :: "jsval \<times> jsval \<Rightarrow> nat option"
  registry :: "(jsval \<times> nat) list"
  container :: "Opium option"

definition alloc :: "ResolverMeta \<Rightarrow> world \<Rightarrow> nat \<times> world" where
  "alloc m w = (nextref w, w\<lparr> heap := (heap w)(nextref w := m), nextref := Suc (nextref w) \<rparr>)"

definition modify :: "nat \<Rightarrow> (ResolverMeta \<Rightarrow> ResolverMeta) \<Rightarrow> world \<Rightarrow> world" where
  "modify r f w = w\<lparr> heap := (heap w)(r := f (heap w r)) \<rparr>"

text \<open>\<^verbatim>\<open>registry.get(k)\<close> and \<^verbatim>\<open>registry.set(k, v)\<close>\<close>

definition registry_get :: "world \<Rightarrow> jsval \<Rightarrow> nat option" where
  "registry_get w k = map_of (registry w) k"

definition registry_set :: "jsval \<Rightarrow> nat \<Rightarrow> world \<Rightarrow> world" where
  "registry_set k r w = w\<lparr> registry := AList.update k r (registry w) \<rparr>"

text \<open>\<^verbatim>\<open>xs[i]\<close> on an array with holes: a hole and an index past the end both read undefined.\<close>

definition deps_at :: "nat option list \<Rightarrow> nat \<Rightarrow> nat option" where
  "deps_at xs i = (if i < length xs then xs ! i else None)"

text \<open>\<^verbatim>\<open>xs[i] = v\<close>: past the end the array grows, the skipped positions are holes.\<close>

definition deps_set :: "nat option list \<Rightarrow> nat \<Rightarrow> nat \<Rightarrow> nat option list" where
  "deps_set xs i v =
     (if i < length xs then xs[i := Some v]
      else xs @ replicate (i - length xs) None @ [Some v])"

text \<open>\<^verbatim>\<open>dep.deps.map(a => a.id)\<close>: \<^verbatim>\<open>map\<close> keeps holes as holes.\<close>

definition dep_ids :: "world \<Rightarrow> nat option list \<Rightarrow> jsval option list" where
  "dep_ids w xs = map (map_option (\<lambda>a. id' (heap w a))) xs"

section \<open>registerWithContainer\<close>

text \<open>
  The \<^verbatim>\<open>switch (dep.type)\<close> of the loop body, for the descriptor at \<open>d\<close>: the container after
  the registration and what the case pushes on the stack, or the error it throws (the
  container is then as it was).
\<close>

definition register_by_type :: "world \<Rightarrow> nat \<Rightarrow> Opium \<Rightarrow> error + (Opium \<times> nat option list)" where
  "register_by_type w d c =
     (let dep = heap w d in
      case type' dep of
        FACTORY \<Rightarrow>
          Inr (registerFactory c (id' dep) (Target (target' dep)) (dep_ids w (deps dep)) (lifeCycle' dep), [])
      | TYPE' \<Rightarrow>
          (case prototype_of (target' dep) of
             Inl e \<Rightarrow> Inl e
           | Inr proto \<Rightarrow>
               (let depMeta = registry_get w proto in
                Inr (registerFactory c (id' dep) (Construct (target' dep) depMeta)
                       (dep_ids w (deps dep)) (lifeCycle' dep),
                     case depMeta of None \<Rightarrow> [] | Some pm \<Rightarrow> rev (deps (heap w pm)))))
      | INSTANCE \<Rightarrow>
          Inr (registerInstance c (id' dep) (target' dep) (dep_ids w (deps dep)) (lifeCycle' dep), [])
      | OTHER k \<Rightarrow> Inl (UnknownKindError (OTHER k)))"

text \<open>
  The identifiers the traversal can still register: those of the descriptors the registry
  holds, less the ones the container has. It shrinks at every registration, which is why
  the loop ends also on cyclic graphs.
\<close>

definition pending :: "world \<Rightarrow> Opium option \<Rightarrow> nat" where
  "pending w c =
     card ((\<lambda>(k, d). id' (heap w d)) ` set (registry w)
           - (case c of None \<Rightarrow> {} | Some cont \<Rightarrow> registered_ids cont))"

text \<open>
  The \<^verbatim>\<open>while (stack.length)\<close> loop. The stack's top is the head of the list, so
  \<^verbatim>\<open>stack.push(...xs)\<close> puts \<open>rev xs\<close> in front. The result is the error thrown, if any,
  and the container as the loop left it.
\<close>

function registerWithContainer_loop ::
  "world \<Rightarrow> nat option list \<Rightarrow> Opium option \<Rightarrow> error option \<times> Opium option" where
  "registerWithContainer_loop w [] c = (None, c)"
| "registerWithContainer_loop w (None # stack) c = registerWithContainer_loop w stack c"
| "registerWithContainer_loop w (Some depRef # stack) c =
     (case registry_get w (id' (heap w depRef)) of
        None \<Rightarrow> registerWithContainer_loop w stack c
      | Some d \<Rightarrow>
          (case c of
             None \<Rightarrow> (Some TypeError, None)
           | Some cont \<Rightarrow>
               if getDep cont (id' (heap w d)) \<noteq> None
               then registerWithContainer_loop w stack c
               else (case register_by_type w d cont of
                       Inl e \<Rightarrow> (Some e, Some cont)
                     | Inr (cont', pushed) \<Rightarrow>
                         registerWithContainer_loop w
                           (pushed @ rev (deps (heap w d)) @ stack) (Some cont'))))"
  by pat_completeness auto

lemma getDep_None_iff: "getDep c i = None \<longleftrightarrow> i \<notin> registered_ids c"
  by (auto simp: getDep_def registered_ids_def find_None_iff)

lemma register_by_type_ids:
  "register_by_type w d c = Inr (c', pushed) \<Longrightarrow>
     registered_ids c' = insert (id' (heap w d)) (registered_ids c)"
  by (auto simp: register_by_type_def registered_ids_def registerFactory_def registerInstance_def
      Let_def split: ResolverType.splits sum.splits)

lemma card_Diff_insert_less:
  assumes "finite A" and "x \<in> A" and "x \<notin> B"
  shows "card (A - insert x B) < card (A - B)"
proof -
  have e: "A - insert x B = (A - B) - {x}" by blast
  have "card ((A - B) - {x}) < card (A - B)"
    using assms by (intro card_Diff1_less) simp_all
  then show ?thesis by (simp only: e)
qed

lemma pending_decreases:
  assumes "registry_get w k = Some d"
    and "getDep cont (id' (heap w d)) = None"
    and "register_by_type w d cont = Inr (cont', pushed)"
  shows "pending w (Some cont') < pending w (Some cont)"
proof -
  have "(k, d) \<in> set (registry w)"
    using assms(1) unfolding registry_get_def by (rule map_of_SomeD)
  then have inA: "id' (heap w d) \<in> (\<lambda>(k, d). id' (heap w d)) ` set (registry w)"
    by (rule rev_image_eqI) simp
  have notin: "id' (heap w d) \<notin> registered_ids cont"
    using assms(2) by (simp add: getDep_None_iff)
  have eq: "registered_ids cont' = insert (id' (heap w d)) (registered_ids cont)"
    using assms(3) by (rule register_by_type_ids)
  show ?thesis
    unfolding pending_def option.case eq
    by (rule card_Diff_insert_less[OF _ inA notin]) simp
qed

termination registerWithContainer_loop
proof (relation "inv_image (less_than <*lex*> less_than) (\<lambda>(w, st, c). (pending w c, length st))")
qed (auto simp: pending_decreases)

text \<open>\<^verbatim>\<open>registerWithContainer(rootDep, container)\<close>\<close>

definition registerWithContainer ::
  "world \<Rightarrow> nat option \<Rightarrow> Opium option \<Rightarrow> error option \<times> Opium option" where
  "registerWithContainer w rootDep c = registerWithContainer_loop w [rootDep] c"

section \<open>The session: injectableFactory and getInjectable\<close>

text \<open>\<^verbatim>\<open>injectableFactory(name, lifeCycle)\<close>: a new container becomes the current one.\<close>

definition injectableFactory :: "jsval \<Rightarrow> jsval \<Rightarrow> world \<Rightarrow> world" where
  "injectableFactory nm lifeCycle w = w\<lparr> container := Some (new_Opium nm lifeCycle) \<rparr>"

text \<open>
  \<^verbatim>\<open>getInjectable(target, key)\<close>: the handle it returns (undefined, \<open>None\<close>, when the
  container has none for the identifier) or the error it throws, and the module state it
  leaves. The registrar works on the container object the module variable points to, so
  what it registered stays visible through the variable when a later step throws.
  \<^verbatim>\<open>container!.getDep(depMeta.id)\<close> throws a TypeError when the container is null and when no
  descriptor was stored for the declaration site.
\<close>

definition getInjectable ::
  "jsval \<Rightarrow> jsval \<Rightarrow> world \<Rightarrow> (error + registration option) \<times> world" where
  "getInjectable target key w =
     (if \<not> is_object target then (Inl TypeError, w)
      else
        (let depMeta = meta w (target, key) in
         case registerWithContainer w depMeta (container w) of
           (Some e, c') \<Rightarrow> (Inl e, w\<lparr> container := c' \<rparr>)
         | (None, c') \<Rightarrow>
             (case c' of
                None \<Rightarrow> (Inl TypeError, w\<lparr> container := c' \<rparr>)
              | Some cont \<Rightarrow>
                  (case depMeta of
                     None \<Rightarrow> (Inl TypeError, w\<lparr> container := c' \<rparr>)
                   | Some r \<Rightarrow>
                       (Inr (getDep cont (id' (heap w r))), w\<lparr> container := None \<rparr>)))))"

section \<open>Declarations: register, registerDeps, registerParam\<close>

datatype TargeType = CONSTRUCTOR | PROPERTY | METHOD

text \<open>\<^verbatim>\<open>let targetType: TargeType = args.length\<close>: the enum's values are 1, 2 and 3.\<close>

definition TargeType_of :: "nat \<Rightarrow> TargeType option" where
  "TargeType_of n =
     (if n = 1 then Some CONSTRUCTOR
      else if n = 2 then Some PROPERTY
      else if n = 3 then Some METHOD
      else None)"

definition isSimpleType :: "jsval \<Rightarrow> bool" where
  "isSimpleType nm =
     (nm \<in> set [Str ''String'', Str ''Number'', Str ''Boolean'', Str ''Object'',
                Str ''undefined'', Str ''Array'', Str ''Function''])"

text \<open>
  \<^verbatim>\<open>registerParam(param, index, targetMeta, lifeCycle, id)\<close>. \<^verbatim>\<open>param.name\<close> is read first and
  throws when the reflected type is undefined. The lifecycle argument is not used by the
  source either.
\<close>

definition registerParam ::
  "host \<Rightarrow> jsval \<Rightarrow> nat \<Rightarrow> nat \<Rightarrow> jsval \<Rightarrow> jsval \<Rightarrow> world \<Rightarrow> error option \<times> world" where
  "registerParam h param index targetMeta lifeCycle ident w =
     (case name_of param of
        Inl e \<Rightarrow> (Some e, w)
      | Inr nm \<Rightarrow>
          if isSimpleType nm \<and> \<not> truthy ident then (Some (MissingIdentifierError nm), w)
          else
            (let (depMeta, w1) = alloc ((new_ResolverMeta h)\<lparr> id' := or_else ident param \<rparr>) w
             in (None, modify targetMeta (\<lambda>m. m\<lparr> deps := deps_set (deps m) index depMeta \<rparr>) w1)))"

text \<open>
  \<^verbatim>\<open>deps.forEach((d, i) => { if (!targetMeta.deps[i]) registerParam(d, i, targetMeta) })\<close>,
  from index \<open>i\<close> on. An error thrown by \<^verbatim>\<open>registerParam\<close> ends the loop; what was
  assigned before stays.
\<close>

fun registerDeps_forEach ::
  "host \<Rightarrow> jsval list \<Rightarrow> nat \<Rightarrow> nat \<Rightarrow> world \<Rightarrow> error option \<times> world" where
  "registerDeps_forEach h [] i targetMeta w = (None, w)"
| "registerDeps_forEach h (d # ds) i targetMeta w =
     (if deps_at (deps (heap w targetMeta)) i = None
      then (case registerParam h d i targetMeta Undefined Undefined w of
              (Some e, w') \<Rightarrow> (Some e, w')
            | (None, w') \<Rightarrow> registerDeps_forEach h ds (Suc i) targetMeta w')
      else registerDeps_forEach h ds (Suc i) targetMeta w)"

text \<open>\<^verbatim>\<open>Reflect.getMetadata('design:paramtypes', target, key) || []\<close>\<close>

definition reflected_params :: "host \<Rightarrow> jsval \<Rightarrow> jsval \<Rightarrow> jsval list" where
  "reflected_params h target key = (case paramtypes h target key of None \<Rightarrow> [] | Some ps \<Rightarrow> ps)"

definition registerDeps :: "host \<Rightarrow> nat \<Rightarrow> jsval \<Rightarrow> jsval \<Rightarrow> world \<Rightarrow> error option \<times> world" where
  "registerDeps h targetMeta target key w =
     registerDeps_forEach h (reflected_params h target key) 0 targetMeta w"

text \<open>
  The opening of each case of \<^verbatim>\<open>register\<close>: the descriptor stored for the declaration
  site is fetched, and created and stored when there is none.
\<close>

definition fetch_meta :: "host \<Rightarrow> jsval \<Rightarrow> jsval \<Rightarrow> world \<Rightarrow> nat \<times> world" where
  "fetch_meta h target key w =
     (case meta w (target, key) of
        Some targetMeta \<Rightarrow> (targetMeta, w)
      | None \<Rightarrow>
          (let (targetMeta, w1) = alloc ((new_ResolverMeta h)\<lparr> target' := target \<rparr>) w
           in (targetMeta, w1\<lparr> meta := (meta w1)((target, key) \<mapsto> targetMeta) \<rparr>)))"

text \<open>The closing \<^verbatim>\<open>registry.set(targetMeta.id || target, targetMeta)\<close>.\<close>

definition store_meta :: "nat \<Rightarrow> jsval \<Rightarrow> world \<Rightarrow> world" where
  "store_meta targetMeta target w =
     registry_set (or_else (id' (heap w targetMeta)) target) targetMeta w"

text \<open>\<^verbatim>\<open>case TargeType.CONSTRUCTOR\<close>\<close>

definition register_constructor ::
  "host \<Rightarrow> jsval \<Rightarrow> jsval \<Rightarrow> jsval \<Rightarrow> jsval \<Rightarrow> world \<Rightarrow> error option \<times> world" where
  "register_constructor h ident lifeCycle target key w =
     (if \<not> is_object target then (Some TypeError, w)
      else
        (let (targetMeta, w1) = fetch_meta h target key w;
             w2 = modify targetMeta
                    (\<lambda>m. m\<lparr> type' := TYPE',
                             lifeCycle' := or_else lifeCycle (lifeCycle' m),
                             target' := target,
                             id' := or_else ident target \<rparr>) w1
         in case registerDeps h targetMeta target key w2 of
              (Some e, w3) \<Rightarrow> (Some e, w3)
            | (None, w3) \<Rightarrow> (None, store_meta targetMeta target w3)))"

text \<open>
  \<^verbatim>\<open>case TargeType.PROPERTY\<close>. The child is pushed on the owner's \<^verbatim>\<open>deps\<close> first and
  completed after, through the same reference.
\<close>

definition register_property ::
  "host \<Rightarrow> jsval \<Rightarrow> jsval \<Rightarrow> jsval \<Rightarrow> world \<Rightarrow> error option \<times> world" where
  "register_property h ident target key w =
     (if \<not> is_object target then (Some TypeError, w)
      else
        (let (targetMeta, w1) = fetch_meta h target Undefined w;
             (depMeta, w2) = alloc ((new_ResolverMeta h)\<lparr> id' := ident, metaKey := key \<rparr>) w1;
             w3 = modify targetMeta (\<lambda>m. m\<lparr> deps := deps m @ [Some depMeta] \<rparr>) w2;
             w4 = (if member_value h target key \<noteq> Undefined
                   then registry_set ident depMeta
                          (modify depMeta
                             (\<lambda>m. m\<lparr> type' := INSTANCE, target' := member_value h target key \<rparr>) w3)
                   else w3)
         in (None, store_meta targetMeta target w4)))"

text \<open>
  \<^verbatim>\<open>case TargeType.METHOD\<close>: a parameter when the third argument is a number (the call
  returns before the registry is written), a factory otherwise. A parameter index outside
  the reflected types reads undefined.
\<close>

definition register_method ::
  "host \<Rightarrow> jsval \<Rightarrow> jsval \<Rightarrow> jsval \<Rightarrow> jsval \<Rightarrow> jsval \<Rightarrow> world \<Rightarrow> error option \<times> world" where
  "register_method h ident lifeCycle target key descriptor w =
     (if \<not> is_object target then (Some TypeError, w)
      else
        (let (targetMeta, w1) = fetch_meta h target key w in
         case descriptor of
           Num n \<Rightarrow>
             (let annotatedDeps = reflected_params h target key;
                  param = (if 0 \<le> n \<and> nat n < length annotatedDeps
                           then annotatedDeps ! nat n else Undefined)
              in registerParam h param (nat n) targetMeta lifeCycle ident w1)
         | _ \<Rightarrow>
             (let w2 = modify targetMeta (\<lambda>m. m\<lparr> type' := FACTORY \<rparr>) w1 in
              case value_of descriptor of
                Inl e \<Rightarrow> (Some e, w2)
              | Inr v \<Rightarrow>
                  (let w3 = modify targetMeta
                              (\<lambda>m. m\<lparr> target' := v,
                                       lifeCycle' := or_else lifeCycle (lifeCycle' m),
                                       id' := or_else ident (returntype h target key) \<rparr>) w2
                   in case registerDeps h targetMeta target key w3 of
                        (Some e, w4) \<Rightarrow> (Some e, w4)
                      | (None, w4) \<Rightarrow> (None, store_meta targetMeta target w4)))))"

text \<open>\<^verbatim>\<open>args[i]\<close>, undefined past the end.\<close>

definition arg :: "jsval list \<Rightarrow> nat \<Rightarrow> jsval" where
  "arg args i = (if i < length args then args ! i else Undefined)"

text \<open>
  The head of \<^verbatim>\<open>factory(...args)\<close>: trailing undefined arguments are popped, the number
  of arguments left is the target type, and an accessor descriptor makes it a property.
  \<open>None\<close> is a value no \<^verbatim>\<open>case\<close> of the \<^verbatim>\<open>switch\<close> matches.
\<close>

definition targetType_of :: "jsval list \<Rightarrow> TargeType option" where
  "targetType_of args0 =
     (let descriptor = arg args0 2;
          args1 = (if length args0 = 3 \<and> arg args0 2 = Undefined then butlast args0 else args0);
          args = (if length args1 = 2 \<and> arg args1 1 = Undefined then butlast args1 else args1)
      in if truthy descriptor \<and> truthy (or_else (get_of descriptor) (set_of descriptor))
         then Some PROPERTY else TargeType_of (length args))"

text \<open>
  \<^verbatim>\<open>register(id, lifeCycle)(...args)\<close>: the decorator applied to its arguments. An omitted
  \<^verbatim>\<open>id\<close> or \<^verbatim>\<open>lifeCycle\<close> is \<open>Undefined\<close>. The result is the error thrown, if any, and the
  module state, which keeps what was written before a throw.
\<close>

definition register :: "host \<Rightarrow> jsval \<Rightarrow> jsval \<Rightarrow> jsval list \<Rightarrow> world \<Rightarrow> error option \<times> world" where
  "register h ident lifeCycle args w =
     (let target = arg args 0;
          key = arg args 1;
          descriptor = arg args 2
      in case targetType_of args of
           Some CONSTRUCTOR \<Rightarrow> register_constructor h ident lifeCycle target key w
         | Some PROPERTY \<Rightarrow> register_property h ident target key w
         | Some METHOD \<Rightarrow> register_method h ident lifeCycle target key descriptor w
         | None \<Rightarrow> (None, w))"

text \<open>The module state when the module is loaded, and a run of declarations from a state.\<close>

definition empty_world :: "host \<Rightarrow> world" where
  "empty_world h =
     \<lparr> heap = (\<lambda>_. new_ResolverMeta h), nextref = 0, meta = (\<lambda>_. None), registry = [],
       container = None \<rparr>"

fun declarations :: "host \<Rightarrow> (jsval \<times> jsval \<times> jsval list) list \<Rightarrow> world \<Rightarrow> world" where
  "declarations h [] w = w"
| "declarations h ((ident, lifeCycle, args) # ds) w =
     declarations h ds (snd (register h ident lifeCycle args w))"

section \<open>The implicit trigger: inject\<close>





section \<open>The producer of a constructed type\<close>

text \<open>
  The \<^verbatim>\<open>async (...args) => { ... }\<close> closure registered for a descriptor of type
  \<^verbatim>\<open>ResolverType.TYPE\<close>. An instance is its table of members. Two things come from
  outside: \<open>construct\<close> is \<^verbatim>\<open>Reflect.construct(dep.target, args)\<close>, and \<open>settle\<close> is the outcome
  of awaiting \<^verbatim>\<open>handle.injectDeps()\<close> and then \<^verbatim>\<open>.injected\<close> on a handle of the container
  (modelled from the spec: a handle eventually produces the resolved value or fails).
  \<^verbatim>\<open>container.getDep(d.id)\<close> is undefined for an identifier that is not registered, and
  calling \<^verbatim>\<open>injectDeps\<close> on it is a TypeError.
\<close>

definition inject_prop ::
  "(registration \<Rightarrow> error + jsval) \<Rightarrow> Opium \<Rightarrow> world \<Rightarrow> nat \<Rightarrow> error + jsval" where
  "inject_prop settle c w d =
     (case getDep c (id' (heap w d)) of
        None \<Rightarrow> Inl TypeError
      | Some handle \<Rightarrow> settle handle)"

text \<open>\<^verbatim>\<open>xs.map(f)\<close> calls \<open>f\<close> on the elements of the array and skips its holes.\<close>

fun present :: "'a option list \<Rightarrow> 'a list" where
  "present [] = []"
| "present (None # xs) = present xs"
| "present (Some x # xs) = x # present xs"

text \<open>
  \<^verbatim>\<open>await Promise.all(depMeta.deps.map(async d => { ...; res[d.metaKey] = injectDep }))\<close>,
  over the property descriptors in the order in which their resolutions complete: each
  completed resolution assigns its member, the first failure rejects the whole and the
  instance is dropped.
\<close>

fun assign_props ::
  "(registration \<Rightarrow> error + jsval) \<Rightarrow> Opium \<Rightarrow> world \<Rightarrow> nat list \<Rightarrow> (jsval \<Rightarrow> jsval)
     \<Rightarrow> error + (jsval \<Rightarrow> jsval)" where
  "assign_props settle c w [] res = Inr res"
| "assign_props settle c w (d # ds) res =
     (case inject_prop settle c w d of
        Inl e \<Rightarrow> Inl e
      | Inr injectDep \<Rightarrow> assign_props settle c w ds (res(metaKey (heap w d) := injectDep)))"

text \<open>
  The closure, for the captured \<open>target\<close> and \<open>depMeta\<close>. \<open>order\<close> arranges the property
  descriptors in the order of completion, which the container decides.
\<close>

definition type_producer ::
  "(jsval \<Rightarrow> jsval list \<Rightarrow> error + (jsval \<Rightarrow> jsval)) \<Rightarrow> (registration \<Rightarrow> error + jsval)
     \<Rightarrow> (nat list \<Rightarrow> nat list) \<Rightarrow> Opium \<Rightarrow> world \<Rightarrow> jsval \<Rightarrow> nat option \<Rightarrow> jsval list
     \<Rightarrow> error + (jsval \<Rightarrow> jsval)" where
  "type_producer construct settle order c w target depMeta args =
     (case construct target args of
        Inl e \<Rightarrow> Inl e
      | Inr res \<Rightarrow>
          (case depMeta of
             None \<Rightarrow> Inr res
           | Some pm \<Rightarrow> assign_props settle c w (order (present (deps (heap w pm)))) res))"

section \<open>Predicates used in the proofs\<close>

text \<open>
  References are handed out in order: in a well-formed state every descriptor stored in
  the reflection metadata has been allocated.
\<close>

definition wf_world :: "world \<Rightarrow> bool" where
  "wf_world w \<longleftrightarrow> (\<forall>s r. meta w s = Some r \<longrightarrow> r < nextref w)"

text \<open>
  The declaration site whose metadata \<^verbatim>\<open>register\<close> reads: none when no case of the
  \<^verbatim>\<open>switch\<close> runs or the target is not an object.
\<close>

definition declaration_site :: "jsval list \<Rightarrow> (jsval \<times> jsval) option" where
  "declaration_site args =
     (case targetType_of args of
        None \<Rightarrow> None
      | Some tt \<Rightarrow>
          if is_object (arg args 0)
          then Some (arg args 0, case tt of PROPERTY \<Rightarrow> Undefined | _ \<Rightarrow> arg args 1)
          else None)"

text \<open>
  A step that leaves the metadata alone, takes no reference back and keeps the registry's
  keys distinct; and a step that keeps the lifecycle of every descriptor that existed.
\<close>

definition same_sites :: "world \<Rightarrow> world \<Rightarrow> bool" where
  "same_sites w w' \<longleftrightarrow>
     meta w' = meta w \<and> nextref w \<le> nextref w' \<and>
     (distinct (map fst (registry w)) \<longrightarrow> distinct (map fst (registry w')))"

definition lifeCycles_kept :: "world \<Rightarrow> world \<Rightarrow> bool" where
  "lifeCycles_kept w w' \<longleftrightarrow>
     nextref w \<le> nextref w' \<and> (\<forall>r<nextref w. lifeCycle' (heap w' r) = lifeCycle' (heap w r))"



section \<open>Example programs\<close>

text \<open>
  A host with the classes \<^verbatim>\<open>A(b: B, s: string)\<close>, \<^verbatim>\<open>R(a: A)\<close>, \<^verbatim>\<open>Plain\<close> (no reflected
  types), and \<^verbatim>\<open>Widgets\<close> with the static factory methods \<^verbatim>\<open>make(): string\<close> and
  \<^verbatim>\<open>assemble(b: B)\<close> (reflected) and \<^verbatim>\<open>build\<close> (not reflected); no member has a value;
  \<^verbatim>\<open>String\<close> is \<open>Fn 0 ''String''\<close>.
\<close>

definition example_host :: host where
  "example_host =
     \<lparr> paramtypes = (\<lambda>t k.
          if (t, k) = (Fn 1 ''A'', Undefined) then Some [Fn 2 ''B'', Fn 0 ''String'']
          else if (t, k) = (Fn 3 ''R'', Undefined) then Some [Fn 1 ''A'']
          else if (t, k) = (Fn 4 ''Widgets'', Str ''make'') then Some []
          else if (t, k) = (Fn 4 ''Widgets'', Str ''assemble'') then Some [Fn 2 ''B'']
          else None),
       returntype = (\<lambda>t k. if (t, k) = (Fn 4 ''Widgets'', Str ''make'') then Fn 0 ''String''
                            else Undefined),
       member_value = (\<lambda>t k. Undefined),
       SINGLETON = Num 1 \<rparr>"

text \<open>
  \<open>gap_world\<close>: class \<^verbatim>\<open>A\<close> carries \<^verbatim>\<open>@register('x')\<close> on its second constructor parameter
  and \<^verbatim>\<open>@register('p')\<close> on a static property \<^verbatim>\<open>p\<close>, and no decorator of its own; class \<^verbatim>\<open>R\<close>
  carries \<^verbatim>\<open>@register()\<close>. \<open>root_world\<close>: only \<^verbatim>\<open>R\<close>, declared with lifecycle 2.
  \<open>props_world\<close>: the prototype of a class \<^verbatim>\<open>Service\<close> has the injected properties \<^verbatim>\<open>cfg\<close>
  and \<^verbatim>\<open>log\<close>, and \<open>props_container\<close> holds an instance for each; \<open>settle_instances\<close> resolves
  a registered instance to its value and fails on anything else.
\<close>

definition gap_world :: world where
  "gap_world =
     declarations example_host
       [(Str ''x'', Undefined, [Fn 1 ''A'', Undefined, Num 1]),
        (Str ''p'', Undefined, [Fn 1 ''A'', Str ''p'']),
        (Undefined, Undefined, [Fn 3 ''R''])]
       (empty_world example_host)"

definition root_world :: world where
  "root_world = declarations example_host [(Undefined, Num 2, [Fn 3 ''R''])] (empty_world example_host)"

definition props_world :: world where
  "props_world =
     declarations example_host
       [(Str ''cfg'', Undefined, [Proto 7 ''Service'', Str ''cfg'']),
        (Str ''log'', Undefined, [Proto 7 ''Service'', Str ''log''])]
       (empty_world example_host)"

definition props_container :: Opium where
  "props_container =
     registerInstance
       (registerInstance (new_Opium Undefined Undefined) (Str ''cfg'') (Num 8080) [] (Num 1))
       (Str ''log'') (Str ''stderr'') [] (Num 1)"

fun settle_instances :: "registration \<Rightarrow> error + jsval" where
  "settle_instances (RegInstance i v ds lc) = Inr v"
| "settle_instances (RegFactory i p ds lc) = Inl (Rejected i)"

text \<open>
  A diamond: \<^verbatim>\<open>Top(l: Left, r: Right)\<close>, \<^verbatim>\<open>Left(s: Shared)\<close>, \<^verbatim>\<open>Right(s: Shared)\<close>, \<^verbatim>\<open>Shared()\<close>,
  each class decorated with \<^verbatim>\<open>@register()\<close>.
\<close>

definition diamond_host :: host where
  "diamond_host =
     \<lparr> paramtypes = (\<lambda>t k.
          if (t, k) = (Fn 10 ''Top'', Undefined) then Some [Fn 11 ''Left'', Fn 12 ''Right'']
          else if (t, k) = (Fn 11 ''Left'', Undefined) then Some [Fn 13 ''Shared'']
          else if (t, k) = (Fn 12 ''Right'', Undefined) then Some [Fn 13 ''Shared'']
          else if (t, k) = (Fn 13 ''Shared'', Undefined) then Some []
          else None),
       returntype = (\<lambda>t k. Undefined),
       member_value = (\<lambda>t k. Undefined),
       SINGLETON = Num 1 \<rparr>"

definition diamond_world :: world where
  "diamond_world =
     declarations diamond_host
       [(Undefined, Undefined, [Fn 13 ''Shared'']),
        (Undefined, Undefined, [Fn 11 ''Left'']),
        (Undefined, Undefined, [Fn 12 ''Right'']),
        (Undefined, Undefined, [Fn 10 ''Top''])]
       (empty_world diamond_host)"

text \<open>
  \<open>param_world\<close>: only the annotation \<^verbatim>\<open>@register('x')\<close> on the second constructor
  parameter of \<^verbatim>\<open>A\<close>. \<open>static_world\<close>: \<^verbatim>\<open>A\<close> with \<^verbatim>\<open>@register('p')\<close> on a static property, the
  same parameter annotation, and then \<^verbatim>\<open>@register()\<close> on the class. \<open>factory_world\<close>: the
  factory \<^verbatim>\<open>Widgets.make\<close> declared without identifier. \<open>twice_world\<close>: the property \<^verbatim>\<open>cfg\<close> of
  \<^verbatim>\<open>Service\<close> declared twice. \<open>stale_world\<close>: \<^verbatim>\<open>R\<close> declared as \<^verbatim>\<open>'x'\<close>, declared again as
  \<^verbatim>\<open>'y'\<close>, then \<^verbatim>\<open>Plain\<close> declared as \<^verbatim>\<open>'y'\<close>. \<open>always_fails\<close>: a container whose handles
  all fail to resolve.
\<close>

definition param_world :: world where
  "param_world =
     declarations example_host [(Str ''x'', Undefined, [Fn 1 ''A'', Undefined, Num 1])]
       (empty_world example_host)"

definition static_world :: world where
  "static_world =
     declarations example_host
       [(Str ''p'', Undefined, [Fn 1 ''A'', Str ''p'']),
        (Str ''x'', Undefined, [Fn 1 ''A'', Undefined, Num 1]),
        (Undefined, Undefined, [Fn 1 ''A''])]
       (empty_world example_host)"

definition factory_world :: world where
  "factory_world =
     declarations example_host
       [(Undefined, Undefined,
         [Fn 4 ''Widgets'', Str ''make'', PropDesc (Fn 6 ''make'') Undefined Undefined])]
       (empty_world example_host)"

definition twice_world :: world where
  "twice_world =
     declarations example_host
       [(Str ''cfg'', Undefined, [Proto 7 ''Service'', Str ''cfg'']),
        (Str ''cfg'', Undefined, [Proto 7 ''Service'', Str ''cfg''])]
       (empty_world example_host)"

definition stale_world :: world where
  "stale_world =
     declarations example_host
       [(Str ''x'', Undefined, [Fn 3 ''R'']),
        (Str ''y'', Undefined, [Fn 3 ''R'']),
        (Str ''y'', Undefined, [Fn 5 ''Plain''])]
       (empty_world example_host)"

text \<open>
  \<open>corrupt_world\<close>: a state no declaration produces, with a hand-made descriptor of an
  unknown kind in the registry.
\<close>

definition corrupt_world :: world where
  "corrupt_world =
     \<lparr> heap = (\<lambda>_. new_ResolverMeta example_host)
                (0 := (new_ResolverMeta example_host)\<lparr> id' := Str ''k'', type' := OTHER 7 \<rparr>),
       nextref = 1, meta = (\<lambda>_. None), registry = [(Str ''k'', 0)], container = None \<rparr>"


lemmas world_defs = param_world_def static_world_def factory_world_def twice_world_def
  stale_world_def corrupt_world_def


lemmas eval_defs = gap_world_def root_world_def props_world_def props_container_def
  example_host_def empty_world_def register_def targetType_of_def arg_def
  TargeType_of_def register_constructor_def register_property_def register_method_def
  fetch_meta_def alloc_def modify_def store_meta_def registry_set_def registry_get_def or_else_def
  new_ResolverMeta_def registerDeps_def reflected_params_def registerParam_def isSimpleType_def
  deps_at_def deps_set_def Let_def registerWithContainer_def register_by_type_def getDep_def
  registerFactory_def registerInstance_def dep_ids_def new_Opium_def injectableFactory_def
  getInjectable_def type_producer_def inject_prop_def diamond_world_def diamond_host_def

section \<open>The traversal registers every identifier at most once\<close>

lemma register_by_type_registrations:
  "register_by_type w d c = Inr (c', pushed) \<Longrightarrow>
     \<exists>reg. registrations c' = reg # registrations c \<and> reg_id reg = id' (heap w d)"
  by (auto simp: register_by_type_def registerFactory_def registerInstance_def
      Let_def split: ResolverType.splits sum.splits)

lemma loop_registrations:
  "registerWithContainer_loop w st copt = (e, c') \<Longrightarrow> copt = Some c \<Longrightarrow>
     \<exists>cont new. c' = Some cont \<and> registrations cont = new @ registrations c \<and>
        distinct (map reg_id new) \<and> reg_id ` set new \<inter> registered_ids c = {}"
proof (induction w st copt arbitrary: c rule: registerWithContainer_loop.induct)
  case (1 w c0)
  then show ?case by auto
next
  case (2 w stack c0)
  then show ?case by simp
next
  case (3 w depRef stack c0)
  show ?case
  proof (cases "registry_get w (id' (heap w depRef))")
    case None
    with 3 show ?thesis by simp
  next
    case (Some d)
    note d = Some
    show ?thesis
    proof (cases "getDep c (id' (heap w d)) \<noteq> None")
      case True
      with 3 d show ?thesis by simp
    next
      case False
      note nreg = False
      then have nd: "getDep c (id' (heap w d)) = None" by simp
      show ?thesis
      proof (cases "register_by_type w d c")
        case (Inl err)
        with "3.prems" d nd show ?thesis by auto
      next
        case (Inr p)
        obtain cont' pushed where p: "p = (cont', pushed)" by (cases p)
        from register_by_type_registrations[OF Inr[unfolded p]]
        obtain reg where reg: "registrations cont' = reg # registrations c"
          "reg_id reg = id' (heap w d)" by blast
        have run: "registerWithContainer_loop w (pushed @ rev (deps (heap w d)) @ stack) (Some cont') = (e, c')"
          using "3.prems" d nd Inr p by simp
        from "3.IH"(3)[OF d "3.prems"(2) nreg Inr[unfolded p] refl run refl]
        obtain cont new where n: "c' = Some cont" "registrations cont = new @ registrations cont'"
          "distinct (map reg_id new)" "reg_id ` set new \<inter> registered_ids cont' = {}"
          by auto
        have notin: "id' (heap w d) \<notin> registered_ids c"
          using nd by (simp add: getDep_None_iff)
        have ids: "registered_ids cont' = insert (id' (heap w d)) (registered_ids c)"
          using reg by (simp add: registered_ids_def)
        have "registrations cont = (new @ [reg]) @ registrations c"
          using n(2) reg(1) by simp
        moreover have "distinct (map reg_id (new @ [reg]))"
          using n(3,4) reg(2) ids by auto
        moreover have "reg_id ` set (new @ [reg]) \<inter> registered_ids c = {}"
          using n(4) ids notin reg(2) by auto
        ultimately show ?thesis using n(1) by blast
      qed
    qed
  qed
qed

lemma loop_null:
  "registerWithContainer_loop w st None = (None, None) \<or>
   registerWithContainer_loop w st None = (Some TypeError, None)"
proof (induction st)
  case Nil
  then show ?case by simp
next
  case (Cons a st)
  then show ?case by (cases a) (auto split: option.splits)
qed

text \<open>
  Claim C2. One traversal by \<^verbatim>\<open>registerWithContainer\<close>, from any root, over any registry
  (shared descriptors and cycles included) and into any container, whether it ends
  normally or by a throw, only adds registrations to the container; the identifiers it
  adds are pairwise distinct (nothing is registered twice in the traversal) and none of
  them was registered in the container before (a descriptor whose identifier the
  container already has is skipped).
\<close>

theorem registerWithContainer_registers_once:
  "\<exists>e cont new. registerWithContainer w rootDep (Some c) = (e, Some cont) \<and>
      registrations cont = new @ registrations c \<and>
      distinct (map reg_id new) \<and>
      reg_id ` set new \<inter> registered_ids c = {}"
proof -
  obtain e c' where r: "registerWithContainer_loop w [rootDep] (Some c) = (e, c')"
    by (cases "registerWithContainer_loop w [rootDep] (Some c)")
  from loop_registrations[OF r refl] r show ?thesis
    unfolding registerWithContainer_def by auto
qed

text \<open>On the diamond, \<^verbatim>\<open>Shared\<close> is reached through \<^verbatim>\<open>Right\<close> and through \<^verbatim>\<open>Left\<close> and registered once.\<close>

lemma diamond_traversal: "registerWithContainer diamond_world
      (meta diamond_world (Fn 10 ''Top'', Undefined)) (Some (new_Opium Undefined Undefined))
   = (None, Some \<lparr> opium_name = Undefined, opium_lifeCycle = Undefined, registrations =
        [RegFactory (Fn 11 ''Left'') (Construct (Fn 11 ''Left'') None) [Some (Fn 13 ''Shared'')] (Num 1),
         RegFactory (Fn 13 ''Shared'') (Construct (Fn 13 ''Shared'') None) [] (Num 1),
         RegFactory (Fn 12 ''Right'') (Construct (Fn 12 ''Right'') None) [Some (Fn 13 ''Shared'')] (Num 1),
         RegFactory (Fn 10 ''Top'') (Construct (Fn 10 ''Top'') None)
           [Some (Fn 11 ''Left''), Some (Fn 12 ''Right'')] (Num 1)] \<rparr>)"
    by (simp add: eval_defs)

theorem registers_once_diamond:
  "\<exists>cont. registerWithContainer diamond_world (meta diamond_world (Fn 10 ''Top'', Undefined))
             (Some (new_Opium Undefined Undefined)) = (None, Some cont) \<and>
          map reg_id (registrations cont)
            = [Fn 11 ''Left'', Fn 13 ''Shared'', Fn 12 ''Right'', Fn 10 ''Top''] \<and>
          distinct (map reg_id (registrations cont))"
proof -
  from registerWithContainer_registers_once[of diamond_world
      "meta diamond_world (Fn 10 ''Top'', Undefined)" "new_Opium Undefined Undefined"]
  obtain e cont new where r: "registerWithContainer diamond_world
      (meta diamond_world (Fn 10 ''Top'', Undefined)) (Some (new_Opium Undefined Undefined))
      = (e, Some cont)"
    and n: "registrations cont = new @ registrations (new_Opium Undefined Undefined)"
    and d: "distinct (map reg_id new)"
    by blast
  from r diamond_traversal have e: "e = None"
    and c: "registrations cont =
        [RegFactory (Fn 11 ''Left'') (Construct (Fn 11 ''Left'') None) [Some (Fn 13 ''Shared'')] (Num 1),
         RegFactory (Fn 13 ''Shared'') (Construct (Fn 13 ''Shared'') None) [] (Num 1),
         RegFactory (Fn 12 ''Right'') (Construct (Fn 12 ''Right'') None) [Some (Fn 13 ''Shared'')] (Num 1),
         RegFactory (Fn 10 ''Top'') (Construct (Fn 10 ''Top'') None)
           [Some (Fn 11 ''Left''), Some (Fn 12 ''Right'')] (Num 1)]"
    by auto
  have "map reg_id (registrations cont)
            = [Fn 11 ''Left'', Fn 13 ''Shared'', Fn 12 ''Right'', Fn 10 ''Top'']"
    unfolding c by simp
  moreover from n d have "distinct (map reg_id (registrations cont))"
    by (simp add: new_Opium_def)
  ultimately show ?thesis using r e by (intro exI[of _ cont]) simp
qed

section \<open>The session\<close>

text \<open>
  Claim C8. When \<^verbatim>\<open>getInjectable\<close> returns a handle, the module state it leaves differs
  from the one it found only in \<^verbatim>\<open>container\<close>, which is null; a descriptor was stored for
  the declaration site, the registrar ran without error on the session container, and
  the handle returned is what that container's \<^verbatim>\<open>getDep\<close> gives for the descriptor's
  identifier.
\<close>

theorem getInjectable_clears_container:
  assumes "getInjectable target key w = (Inr handle, w')"
  shows "w' = w\<lparr> container := None \<rparr> \<and>
         (\<exists>r c cont. meta w (target, key) = Some r \<and> container w = Some c \<and>
            registerWithContainer w (Some r) (Some c) = (None, Some cont) \<and>
            handle = getDep cont (id' (heap w r)))"
proof -
  from assms have obj: "is_object target"
    by (auto simp: getInjectable_def split: if_splits)
  obtain e c' where run: "registerWithContainer w (meta w (target, key)) (container w) = (e, c')"
    by (cases "registerWithContainer w (meta w (target, key)) (container w)")
  from assms obj run obtain cont r where
    e: "e = None" and c': "c' = Some cont" and r: "meta w (target, key) = Some r"
    and h: "handle = getDep cont (id' (heap w r))" and w': "w' = w\<lparr> container := None \<rparr>"
    by (auto simp: getInjectable_def Let_def split: option.splits)
  have "container w \<noteq> None"
  proof
    assume n: "container w = None"
    from loop_null[of w "[meta w (target, key)]"] run n c' show False
      by (auto simp: registerWithContainer_def)
  qed
  then obtain c where c: "container w = Some c" by auto
  show ?thesis using w' r c run e c' h by auto
qed

theorem getInjectable_clears_container_witness:
  "fst (getInjectable (Fn 3 ''R'') Undefined (injectableFactory Undefined Undefined root_world))
     = Inr (Some (RegFactory (Fn 3 ''R'') (Construct (Fn 3 ''R'') None) [Some (Fn 1 ''A'')] (Num 2))) \<and>
   snd (getInjectable (Fn 3 ''R'') Undefined (injectableFactory Undefined Undefined root_world))
     = (injectableFactory Undefined Undefined root_world)\<lparr> container := None \<rparr>"
proof -
  have e: "fst (getInjectable (Fn 3 ''R'') Undefined (injectableFactory Undefined Undefined root_world))
     = Inr (Some (RegFactory (Fn 3 ''R'') (Construct (Fn 3 ''R'') None) [Some (Fn 1 ''A'')] (Num 2)))"
    by (simp add: eval_defs)
  then have "getInjectable (Fn 3 ''R'') Undefined (injectableFactory Undefined Undefined root_world)
     = (Inr (Some (RegFactory (Fn 3 ''R'') (Construct (Fn 3 ''R'') None) [Some (Fn 1 ''A'')] (Num 2))),
        snd (getInjectable (Fn 3 ''R'') Undefined (injectableFactory Undefined Undefined root_world)))"
    by (simp add: prod_eq_iff)
  from getInjectable_clears_container[OF this] e show ?thesis by simp
qed

text \<open>
  Claim C9. After \<^verbatim>\<open>injectableFactory\<close> began a session and the lookup it returned produced
  a handle once, the container variable is null, and as long as it stays so (no new
  session began) a further call of the lookup, for any target and key, throws a TypeError
  instead of returning a handle.
\<close>

theorem getInjectable_once:
  assumes "getInjectable target key (injectableFactory nm lifeCycle w) = (Inr handle, w')"
  shows "container w' = None \<and>
         (\<forall>w''. container w'' = container w' \<longrightarrow>
            fst (getInjectable target2 key2 w'') = Inl TypeError)"
proof -
  from assms have cn: "container w' = None"
    by (auto simp: getInjectable_def Let_def split: if_splits option.splits prod.splits)
  have "fst (getInjectable target2 key2 w'') = Inl TypeError" if c: "container w'' = None" for w''
  proof (cases "is_object target2")
    case False
    then show ?thesis by (simp add: getInjectable_def)
  next
    case True
    from loop_null[of w'' "[meta w'' (target2, key2)]"] True c show ?thesis
      by (auto simp: getInjectable_def registerWithContainer_def Let_def)
  qed
  with cn show ?thesis by simp
qed

theorem getInjectable_once_witness:
  "fst (getInjectable (Fn 3 ''R'') Undefined (injectableFactory Undefined Undefined root_world))
     = Inr (Some (RegFactory (Fn 3 ''R'') (Construct (Fn 3 ''R'') None) [Some (Fn 1 ''A'')] (Num 2))) \<and>
   fst (getInjectable (Fn 3 ''R'') Undefined
          (snd (getInjectable (Fn 3 ''R'') Undefined
                  (injectableFactory Undefined Undefined root_world)))) = Inl TypeError"
proof -
  have e: "fst (getInjectable (Fn 3 ''R'') Undefined (injectableFactory Undefined Undefined root_world))
     = Inr (Some (RegFactory (Fn 3 ''R'') (Construct (Fn 3 ''R'') None) [Some (Fn 1 ''A'')] (Num 2)))"
    by (simp add: eval_defs)
  then have "getInjectable (Fn 3 ''R'') Undefined (injectableFactory Undefined Undefined root_world)
     = (Inr (Some (RegFactory (Fn 3 ''R'') (Construct (Fn 3 ''R'') None) [Some (Fn 1 ''A'')] (Num 2))),
        snd (getInjectable (Fn 3 ''R'') Undefined (injectableFactory Undefined Undefined root_world)))"
    by (simp add: prod_eq_iff)
  from getInjectable_once[OF this, of "Fn 3 ''R''" Undefined] e show ?thesis by simp
qed

section \<open>The producer is all or nothing\<close>

lemma assign_props_Inr:
  "assign_props settle c w ds res = Inr inst \<Longrightarrow>
     (\<forall>d\<in>set ds. \<exists>v. inject_prop settle c w d = Inr v) \<and>
     (\<forall>k. k \<notin> (\<lambda>d. metaKey (heap w d)) ` set ds \<longrightarrow> inst k = res k) \<and>
     (\<forall>d\<in>set ds. \<exists>d'\<in>set ds. metaKey (heap w d') = metaKey (heap w d) \<and>
         inject_prop settle c w d' = Inr (inst (metaKey (heap w d))))"
proof (induction ds arbitrary: res)
  case Nil
  then show ?case by simp
next
  case (Cons d ds)
  from Cons.prems obtain v where v: "inject_prop settle c w d = Inr v"
    and rest: "assign_props settle c w ds (res(metaKey (heap w d) := v)) = Inr inst"
    by (auto split: sum.splits)
  note IH = Cons.IH[OF rest]
  have a: "\<forall>x\<in>set (d # ds). \<exists>v. inject_prop settle c w x = Inr v"
    using v IH by auto
  have b: "\<forall>k. k \<notin> (\<lambda>d. metaKey (heap w d)) ` set (d # ds) \<longrightarrow> inst k = res k"
    using IH by auto
  have c: "\<exists>d'\<in>set (d # ds). metaKey (heap w d') = metaKey (heap w x) \<and>
         inject_prop settle c w d' = Inr (inst (metaKey (heap w x)))"
    if x: "x \<in> set (d # ds)" for x
  proof (cases "metaKey (heap w x) \<in> (\<lambda>d. metaKey (heap w d)) ` set ds")
    case True
    then obtain y where y: "y \<in> set ds" "metaKey (heap w y) = metaKey (heap w x)" by auto
    from IH y(1) obtain d' where "d' \<in> set ds" "metaKey (heap w d') = metaKey (heap w y)"
      "inject_prop settle c w d' = Inr (inst (metaKey (heap w y)))" by blast
    then show ?thesis using y(2) by auto
  next
    case False
    then have xd: "x = d" using x by auto
    from IH False have "inst (metaKey (heap w x)) = (res(metaKey (heap w d) := v)) (metaKey (heap w x))"
      by blast
    then have "inst (metaKey (heap w d)) = v" using xd by simp
    then show ?thesis using v xd by auto
  qed
  from a b c show ?case by blast
qed

lemma assign_props_Inl:
  "\<exists>d\<in>set ds. \<exists>e. inject_prop settle c w d = Inl e \<Longrightarrow>
     \<exists>e. assign_props settle c w ds res = Inl e"
proof (induction ds arbitrary: res)
  case Nil
  then show ?case by simp
next
  case (Cons d ds)
  show ?case
  proof (cases "inject_prop settle c w d")
    case (Inl e)
    then show ?thesis by simp
  next
    case (Inr v)
    with Cons.prems have "\<exists>d\<in>set ds. \<exists>e. inject_prop settle c w d = Inl e" by auto
    from Cons.IH[OF this] Inr show ?thesis by simp
  qed
qed

text \<open>
  Claim C1. Take the producer registered for a descriptor of type \<^verbatim>\<open>TYPE\<close> whose
  prototype has a descriptor \<open>pm\<close> with property dependencies, and any order of
  completion of their resolutions. If the producer returns an instance, then the target
  was constructed, every property dependency resolved, every member named by a
  \<^verbatim>\<open>metaKey\<close> holds the value resolved for a property dependency with that key, and the
  other members are as constructed. If the resolution of any one property dependency
  fails, the producer fails and returns no instance.
\<close>

theorem type_producer_all_or_nothing:
  assumes "set (order (present (deps (heap w pm)))) = set (present (deps (heap w pm)))"
  shows "(\<forall>inst. type_producer construct settle order c w target (Some pm) args = Inr inst \<longrightarrow>
            (\<exists>res. construct target args = Inr res \<and>
               (\<forall>k. k \<notin> (\<lambda>d. metaKey (heap w d)) ` set (present (deps (heap w pm))) \<longrightarrow>
                  inst k = res k)) \<and>
            (\<forall>d\<in>set (present (deps (heap w pm))). \<exists>v. inject_prop settle c w d = Inr v) \<and>
            (\<forall>d\<in>set (present (deps (heap w pm))). \<exists>d'\<in>set (present (deps (heap w pm))).
               metaKey (heap w d') = metaKey (heap w d) \<and>
               inject_prop settle c w d' = Inr (inst (metaKey (heap w d))))) \<and>
         ((\<exists>d\<in>set (present (deps (heap w pm))). \<exists>e. inject_prop settle c w d = Inl e) \<longrightarrow>
            (\<exists>e. type_producer construct settle order c w target (Some pm) args = Inl e))"
proof (intro conjI allI impI)
  fix inst
  assume run: "type_producer construct settle order c w target (Some pm) args = Inr inst"
  then obtain res where res: "construct target args = Inr res"
    and asg: "assign_props settle c w (order (present (deps (heap w pm)))) res = Inr inst"
    by (auto simp: type_producer_def split: sum.splits)
  note A = assign_props_Inr[OF asg, unfolded assms]
  show "\<exists>res. construct target args = Inr res \<and>
               (\<forall>k. k \<notin> (\<lambda>d. metaKey (heap w d)) ` set (present (deps (heap w pm))) \<longrightarrow>
                  inst k = res k)"
    using res A by blast
  show "\<forall>d\<in>set (present (deps (heap w pm))). \<exists>v. inject_prop settle c w d = Inr v"
    using A by blast
  show "\<forall>d\<in>set (present (deps (heap w pm))). \<exists>d'\<in>set (present (deps (heap w pm))).
               metaKey (heap w d') = metaKey (heap w d) \<and>
               inject_prop settle c w d' = Inr (inst (metaKey (heap w d)))"
    using A by blast
next
  assume "\<exists>d\<in>set (present (deps (heap w pm))). \<exists>e. inject_prop settle c w d = Inl e"
  then have "\<exists>d\<in>set (order (present (deps (heap w pm)))). \<exists>e. inject_prop settle c w d = Inl e"
    using assms by simp
  from assign_props_Inl[OF this]
  show "\<exists>e. type_producer construct settle order c w target (Some pm) args = Inl e"
    by (cases "construct target args") (auto simp: type_producer_def)
qed

theorem type_producer_all_or_nothing_witness:
  "\<exists>inst. type_producer (\<lambda>t a. Inr (\<lambda>k. Undefined)) settle_instances rev props_container
             props_world (Fn 7 ''Service'') (Some 0) [] = Inr inst \<and>
          inst (Str ''cfg'') = Num 8080 \<and> inst (Str ''log'') = Str ''stderr''"
proof -
  have d: "present (deps (heap props_world 0)) = [1, 2]"
    and k: "metaKey (heap props_world 1) = Str ''cfg''" "metaKey (heap props_world 2) = Str ''log''"
    and i: "inject_prop settle_instances props_container props_world 1 = Inr (Num 8080)"
           "inject_prop settle_instances props_container props_world 2 = Inr (Str ''stderr'')"
    by (simp_all add: eval_defs)
  have "\<exists>inst. type_producer (\<lambda>t a. Inr (\<lambda>k. Undefined)) settle_instances rev props_container
             props_world (Fn 7 ''Service'') (Some 0) [] = Inr inst"
    using i by (simp add: type_producer_def d)
  then obtain inst where run: "type_producer (\<lambda>t a. Inr (\<lambda>k. Undefined)) settle_instances rev
      props_container props_world (Fn 7 ''Service'') (Some 0) [] = Inr inst" by blast
  have o: "set (rev (present (deps (heap props_world 0)))) = set (present (deps (heap props_world 0)))"
    by simp
  from type_producer_all_or_nothing[where order=rev and w=props_world and pm=0
      and construct="\<lambda>t a. Inr (\<lambda>k. Undefined)" and settle=settle_instances
      and c=props_container and target="Fn 7 ''Service''" and args="[]", OF o] run
  have "\<forall>d\<in>set [1, 2]. \<exists>d'\<in>set [1, 2].
          metaKey (heap props_world d') = metaKey (heap props_world d) \<and>
          inject_prop settle_instances props_container props_world d'
            = Inr (inst (metaKey (heap props_world d)))"
    unfolding d by blast
  then have "inst (Str ''cfg'') = Num 8080 \<and> inst (Str ''log'') = Str ''stderr''"
    using k i by auto
  with run show ?thesis by blast
qed

text \<open>
  The producer the registrar registers for a descriptor of type \<^verbatim>\<open>TYPE\<close> is this closure,
  with \<open>depMeta\<close> the registry's entry for the prototype of the target.
\<close>

lemma register_by_type_TYPE:
  "type' (heap w d) = TYPE' \<Longrightarrow> register_by_type w d c = Inr (c', pushed) \<Longrightarrow>
     \<exists>proto. prototype_of (target' (heap w d)) = Inr proto \<and>
       getDep c' (id' (heap w d)) =
         Some (RegFactory (id' (heap w d))
                 (Construct (target' (heap w d)) (registry_get w proto))
                 (dep_ids w (deps (heap w d))) (lifeCycle' (heap w d)))"
  by (auto simp: register_by_type_def registerFactory_def getDep_def Let_def split: sum.splits)

section \<open>Declarations\<close>

lemma lifeCycles_kept_refl: "lifeCycles_kept w w"
  by (simp add: lifeCycles_kept_def)

lemma lifeCycles_kept_trans:
  "lifeCycles_kept w w1 \<Longrightarrow> lifeCycles_kept w1 w2 \<Longrightarrow> lifeCycles_kept w w2"
  by (auto simp: lifeCycles_kept_def)

lemma lifeCycles_kept_alloc: "alloc m w = (r, w') \<Longrightarrow> lifeCycles_kept w w'"
  by (auto simp: lifeCycles_kept_def alloc_def)

lemma lifeCycles_kept_modify:
  "(\<And>m. lifeCycle' (f m) = lifeCycle' m) \<Longrightarrow> lifeCycles_kept w (modify r f w)"
  by (auto simp: lifeCycles_kept_def modify_def)

lemma lifeCycles_kept_registry_set: "lifeCycles_kept w (registry_set k r w)"
  by (simp add: lifeCycles_kept_def registry_set_def)

lemma lifeCycles_kept_store_meta: "lifeCycles_kept w (store_meta r t w)"
  by (simp add: store_meta_def lifeCycles_kept_registry_set)

lemma lifeCycles_kept_registerParam:
  "registerParam h param index targetMeta lifeCycle ident w = (e, w') \<Longrightarrow> lifeCycles_kept w w'"
  by (auto simp: registerParam_def lifeCycles_kept_def alloc_def modify_def Let_def
      split: sum.splits if_splits)

lemma lifeCycles_kept_forEach:
  "registerDeps_forEach h ps i targetMeta w = (e, w') \<Longrightarrow> lifeCycles_kept w w'"
proof (induction ps arbitrary: i w)
  case Nil
  then show ?case by (simp add: lifeCycles_kept_refl)
next
  case (Cons d ds)
  show ?case
  proof (cases "deps_at (deps (heap w targetMeta)) i = None")
    case False
    with Cons show ?thesis by simp
  next
    case True
    obtain e1 w1 where p: "registerParam h d i targetMeta Undefined Undefined w = (e1, w1)"
      by (cases "registerParam h d i targetMeta Undefined Undefined w")
    note k1 = lifeCycles_kept_registerParam[OF p]
    show ?thesis
    proof (cases e1)
      case None
      with Cons.prems True p have "registerDeps_forEach h ds (Suc i) targetMeta w1 = (e, w')"
        by simp
      from lifeCycles_kept_trans[OF k1 Cons.IH[OF this]] show ?thesis .
    next
      case (Some a)
      with Cons.prems True p have "w' = w1" by simp
      with k1 show ?thesis by simp
    qed
  qed
qed

lemma lifeCycles_kept_registerDeps:
  "registerDeps h targetMeta target key w = (e, w') \<Longrightarrow> lifeCycles_kept w w'"
  unfolding registerDeps_def by (rule lifeCycles_kept_forEach)

lemma lifeCycles_kept_fetch_meta:
  "fetch_meta h target key w = (r, w') \<Longrightarrow> lifeCycles_kept w w'"
  by (auto simp: fetch_meta_def lifeCycles_kept_def alloc_def Let_def split: option.splits)

lemma or_else_Undefined [simp]: "or_else Undefined x = x"
  by (simp add: or_else_def)

lemma lifeCycles_kept_constructor:
  "register_constructor h ident Undefined target key w = (e, w') \<Longrightarrow> lifeCycles_kept w w'"
proof -
  assume run: "register_constructor h ident Undefined target key w = (e, w')"
  show ?thesis
  proof (cases "is_object target")
    case False
    with run show ?thesis by (simp add: register_constructor_def lifeCycles_kept_refl)
  next
    case True
    obtain r w1 where f: "fetch_meta h target key w = (r, w1)" by (cases "fetch_meta h target key w")
    define w2 where "w2 = modify r (\<lambda>m. m\<lparr> type' := TYPE', lifeCycle' := lifeCycle' m,
        target' := target, id' := or_else ident target \<rparr>) w1"
    obtain e3 w3 where d: "registerDeps h r target key w2 = (e3, w3)"
      by (cases "registerDeps h r target key w2")
    have k1: "lifeCycles_kept w w1" using f by (rule lifeCycles_kept_fetch_meta)
    have k2: "lifeCycles_kept w1 w2" unfolding w2_def by (rule lifeCycles_kept_modify) simp
    have k3: "lifeCycles_kept w2 w3" using d by (rule lifeCycles_kept_registerDeps)
    have k: "lifeCycles_kept w w3"
      using k1 k2 k3 by (blast intro: lifeCycles_kept_trans)
    have "w' = w3 \<or> w' = store_meta r target w3"
      using run True f d by (auto simp: register_constructor_def w2_def split: option.splits)
    then show ?thesis
      using k lifeCycles_kept_store_meta[of w3 r target] by (auto intro: lifeCycles_kept_trans)
  qed
qed

lemma lifeCycles_kept_property:
  "register_property h ident target key w = (e, w') \<Longrightarrow> lifeCycles_kept w w'"
proof -
  assume run: "register_property h ident target key w = (e, w')"
  show ?thesis
  proof (cases "is_object target")
    case False
    with run show ?thesis by (simp add: register_property_def lifeCycles_kept_refl)
  next
    case True
    obtain r w1 where f: "fetch_meta h target Undefined w = (r, w1)"
      by (cases "fetch_meta h target Undefined w")
    obtain c w2 where a: "alloc ((new_ResolverMeta h)\<lparr> id' := ident, metaKey := key \<rparr>) w1 = (c, w2)"
      by (cases "alloc ((new_ResolverMeta h)\<lparr> id' := ident, metaKey := key \<rparr>) w1")
    define w3 where "w3 = modify r (\<lambda>m. m\<lparr> deps := deps m @ [Some c] \<rparr>) w2"
    define w4 where "w4 = (if member_value h target key \<noteq> Undefined
                   then registry_set ident c
                          (modify c
                             (\<lambda>m. m\<lparr> type' := INSTANCE, target' := member_value h target key \<rparr>) w3)
                   else w3)"
    have k1: "lifeCycles_kept w w1" using f by (rule lifeCycles_kept_fetch_meta)
    have k2: "lifeCycles_kept w1 w2" using a by (rule lifeCycles_kept_alloc)
    have k3: "lifeCycles_kept w2 w3" unfolding w3_def by (rule lifeCycles_kept_modify) simp
    have k4: "lifeCycles_kept w3 w4" unfolding w4_def
      by (auto intro!: lifeCycles_kept_refl lifeCycles_kept_modify
          lifeCycles_kept_trans[OF _ lifeCycles_kept_registry_set])
    have "w' = store_meta r target w4"
      using run True f a by (auto simp: register_property_def w3_def w4_def Let_def)
    then show ?thesis
      using k1 k2 k3 k4 lifeCycles_kept_store_meta[of w4 r target]
      by (blast intro: lifeCycles_kept_trans)
  qed
qed

lemma lifeCycles_kept_method:
  "register_method h ident Undefined target key descriptor w = (e, w') \<Longrightarrow> lifeCycles_kept w w'"
proof -
  assume run: "register_method h ident Undefined target key descriptor w = (e, w')"
  show ?thesis
  proof (cases "is_object target")
    case False
    with run show ?thesis by (simp add: register_method_def lifeCycles_kept_refl)
  next
    case True
    obtain r w1 where f: "fetch_meta h target key w = (r, w1)" by (cases "fetch_meta h target key w")
    have k1: "lifeCycles_kept w w1" using f by (rule lifeCycles_kept_fetch_meta)
    show ?thesis
    proof (cases "\<exists>n. descriptor = Num n")
      case True
      then obtain n where n: "descriptor = Num n" by blast
      from run \<open>is_object target\<close> f n
      have "\<exists>p. registerParam h p (nat n) r Undefined ident w1 = (e, w')"
        by (auto simp: register_method_def Let_def)
      then show ?thesis
        using k1 by (blast intro: lifeCycles_kept_trans lifeCycles_kept_registerParam)
    next
      case False
      define w2 where "w2 = modify r (\<lambda>m. m\<lparr> type' := FACTORY \<rparr>) w1"
      have k2: "lifeCycles_kept w1 w2" unfolding w2_def by (rule lifeCycles_kept_modify) simp
      have run2: "(case value_of descriptor of
                Inl e \<Rightarrow> (Some e, w2)
              | Inr v \<Rightarrow>
                  (let w3 = modify r
                              (\<lambda>m. m\<lparr> target' := v,
                                       lifeCycle' := or_else Undefined (lifeCycle' m),
                                       id' := or_else ident (returntype h target key) \<rparr>) w2
                   in case registerDeps h r target key w3 of
                        (Some e, w4) \<Rightarrow> (Some e, w4)
                      | (None, w4) \<Rightarrow> (None, store_meta r target w4))) = (e, w')"
        using run \<open>is_object target\<close> f False
        by (cases descriptor) (simp_all add: register_method_def w2_def)
      show ?thesis
      proof (cases "value_of descriptor")
        case (Inl err)
        with run2 have "w' = w2" by simp
        with k1 k2 show ?thesis by (blast intro: lifeCycles_kept_trans)
      next
        case (Inr v)
        define w3 where "w3 = modify r (\<lambda>m. m\<lparr> target' := v, lifeCycle' := lifeCycle' m,
              id' := or_else ident (returntype h target key) \<rparr>) w2"
        have k3: "lifeCycles_kept w2 w3" unfolding w3_def by (rule lifeCycles_kept_modify) simp
        obtain e4 w4 where d: "registerDeps h r target key w3 = (e4, w4)"
          by (cases "registerDeps h r target key w3")
        have k4: "lifeCycles_kept w3 w4" using d by (rule lifeCycles_kept_registerDeps)
        have "w' = w4 \<or> w' = store_meta r target w4"
          using run2 Inr d by (auto simp: w3_def split: option.splits)
        then show ?thesis
          using k1 k2 k3 k4 lifeCycles_kept_store_meta[of w4 r target]
          by (blast intro: lifeCycles_kept_trans)
      qed
    qed
  qed
qed

lemma lifeCycles_kept_register:
  "lifeCycles_kept w (snd (register h ident Undefined args w))"
proof -
  obtain e w' where r: "register h ident Undefined args w = (e, w')"
    by (cases "register h ident Undefined args w")
  have "lifeCycles_kept w w'"
  proof (cases "targetType_of args")
    case None
    with r show ?thesis by (simp add: register_def lifeCycles_kept_refl)
  next
    case (Some tt)
    with r show ?thesis
      by (cases tt) (auto simp: register_def Let_def
          dest: lifeCycles_kept_constructor lifeCycles_kept_property lifeCycles_kept_method)
  qed
  with r show ?thesis by simp
qed

lemma same_sites_refl: "same_sites w w"
  by (simp add: same_sites_def)

lemma same_sites_trans: "same_sites w w1 \<Longrightarrow> same_sites w1 w2 \<Longrightarrow> same_sites w w2"
  by (auto simp: same_sites_def)

lemma same_sites_alloc: "alloc m w = (r, w') \<Longrightarrow> same_sites w w'"
  by (auto simp: same_sites_def alloc_def)

lemma same_sites_modify: "same_sites w (modify r f w)"
  by (simp add: same_sites_def modify_def)

lemma same_sites_registry_set: "same_sites w (registry_set k r w)"
  by (simp add: same_sites_def registry_set_def distinct_update)

lemma same_sites_store_meta: "same_sites w (store_meta r t w)"
  by (simp add: store_meta_def same_sites_registry_set)


lemma deps_at_deps_set: "deps_at (deps_set xs i v) j = (if j = i then Some v else deps_at xs j)"
  by (auto simp: deps_at_def deps_set_def nth_append)



lemma same_sites_registerParam:
  "registerParam h p i r lc ident w = (e, w') \<Longrightarrow> same_sites w w'"
  by (auto simp: registerParam_def Let_def alloc_def modify_def same_sites_def
      split: sum.splits if_splits)

lemma same_sites_forEach:
  "registerDeps_forEach h ps i r w = (e, w') \<Longrightarrow> same_sites w w'"
proof (induction ps arbitrary: i w)
  case Nil
  then show ?case by (simp add: same_sites_refl)
next
  case (Cons d ds)
  show ?case
  proof (cases "deps_at (deps (heap w r)) i = None")
    case False
    with Cons show ?thesis by simp
  next
    case True
    obtain e1 w1 where p: "registerParam h d i r Undefined Undefined w = (e1, w1)"
      by (cases "registerParam h d i r Undefined Undefined w")
    note k1 = same_sites_registerParam[OF p]
    show ?thesis
    proof (cases e1)
      case None
      with Cons.prems True p have "registerDeps_forEach h ds (Suc i) r w1 = (e, w')"
        by simp
      from same_sites_trans[OF k1 Cons.IH[OF this]] show ?thesis .
    next
      case (Some a)
      with Cons.prems True p have "w' = w1" by simp
      with k1 show ?thesis by simp
    qed
  qed
qed




lemma registry_get_set: "registry_get (registry_set k r w) k = Some r"
  by (simp add: registry_get_def registry_set_def update_conv')






lemma constructor_sites:
  "register_constructor h ident lifeCycle target key w = (e, w') \<Longrightarrow> is_object target \<Longrightarrow>
     same_sites (snd (fetch_meta h target key w)) w'"
proof -
  assume run: "register_constructor h ident lifeCycle target key w = (e, w')" and obj: "is_object target"
  obtain r w1 where f: "fetch_meta h target key w = (r, w1)" by (cases "fetch_meta h target key w")
  define w2 where "w2 = modify r (\<lambda>m. m\<lparr> type' := TYPE',
      lifeCycle' := or_else lifeCycle (lifeCycle' m), target' := target,
      id' := or_else ident target \<rparr>) w1"
  obtain e3 w3 where d: "registerDeps h r target key w2 = (e3, w3)"
    by (cases "registerDeps h r target key w2")
  have k2: "same_sites w1 w2" unfolding w2_def by (rule same_sites_modify)
  have k3: "same_sites w2 w3" using d unfolding registerDeps_def by (rule same_sites_forEach)
  have "w' = w3 \<or> w' = store_meta r target w3"
    using run obj f d by (auto simp: register_constructor_def w2_def split: option.splits)
  then have "same_sites w1 w'"
    using k2 k3 same_sites_store_meta[of w3 r target] by (auto intro: same_sites_trans)
  then show ?thesis using f by simp
qed

lemma property_sites:
  "register_property h ident target key w = (e, w') \<Longrightarrow> is_object target \<Longrightarrow>
     same_sites (snd (fetch_meta h target Undefined w)) w'"
proof -
  assume run: "register_property h ident target key w = (e, w')" and obj: "is_object target"
  obtain r w1 where f: "fetch_meta h target Undefined w = (r, w1)"
    by (cases "fetch_meta h target Undefined w")
  obtain c w2 where a: "alloc ((new_ResolverMeta h)\<lparr> id' := ident, metaKey := key \<rparr>) w1 = (c, w2)"
    by (cases "alloc ((new_ResolverMeta h)\<lparr> id' := ident, metaKey := key \<rparr>) w1")
  define w3 where "w3 = modify r (\<lambda>m. m\<lparr> deps := deps m @ [Some c] \<rparr>) w2"
  define w4 where "w4 = (if member_value h target key \<noteq> Undefined
                   then registry_set ident c
                          (modify c
                             (\<lambda>m. m\<lparr> type' := INSTANCE, target' := member_value h target key \<rparr>) w3)
                   else w3)"
  have k2: "same_sites w1 w2" using a by (rule same_sites_alloc)
  have k3: "same_sites w2 w3" unfolding w3_def by (rule same_sites_modify)
  have k4: "same_sites w3 w4" unfolding w4_def
    by (auto intro!: same_sites_refl same_sites_trans[OF same_sites_modify same_sites_registry_set])
  have "w' = store_meta r target w4"
    using run obj f a by (auto simp: register_property_def w3_def w4_def Let_def)
  then have "same_sites w1 w'"
    using k2 k3 k4 same_sites_store_meta[of w4 r target] by (blast intro: same_sites_trans)
  then show ?thesis using f by simp
qed

lemma method_sites:
  "register_method h ident lifeCycle target key descriptor w = (e, w') \<Longrightarrow> is_object target \<Longrightarrow>
     same_sites (snd (fetch_meta h target key w)) w'"
proof -
  assume run: "register_method h ident lifeCycle target key descriptor w = (e, w')"
    and obj: "is_object target"
  obtain r w1 where f: "fetch_meta h target key w = (r, w1)" by (cases "fetch_meta h target key w")
  have "same_sites w1 w'"
  proof (cases "\<exists>n. descriptor = Num n")
    case True
    then obtain n where n: "descriptor = Num n" by blast
    from run obj f n
    have "\<exists>p. registerParam h p (nat n) r lifeCycle ident w1 = (e, w')"
      by (auto simp: register_method_def Let_def)
    then show ?thesis by (blast intro: same_sites_registerParam)
  next
    case False
    define w2 where "w2 = modify r (\<lambda>m. m\<lparr> type' := FACTORY \<rparr>) w1"
    have k2: "same_sites w1 w2" unfolding w2_def by (rule same_sites_modify)
    have run2: "(case value_of descriptor of
                Inl e \<Rightarrow> (Some e, w2)
              | Inr v \<Rightarrow>
                  (let w3 = modify r
                              (\<lambda>m. m\<lparr> target' := v,
                                       lifeCycle' := or_else lifeCycle (lifeCycle' m),
                                       id' := or_else ident (returntype h target key) \<rparr>) w2
                   in case registerDeps h r target key w3 of
                        (Some e, w4) \<Rightarrow> (Some e, w4)
                      | (None, w4) \<Rightarrow> (None, store_meta r target w4))) = (e, w')"
      using run obj f False
      by (cases descriptor) (simp_all add: register_method_def w2_def)
    show ?thesis
    proof (cases "value_of descriptor")
      case (Inl err)
      with run2 have "w' = w2" by simp
      with k2 show ?thesis by simp
    next
      case (Inr v)
      define w3 where "w3 = modify r (\<lambda>m. m\<lparr> target' := v,
            lifeCycle' := or_else lifeCycle (lifeCycle' m),
            id' := or_else ident (returntype h target key) \<rparr>) w2"
      have k3: "same_sites w2 w3" unfolding w3_def by (rule same_sites_modify)
      obtain e4 w4 where d: "registerDeps h r target key w3 = (e4, w4)"
        by (cases "registerDeps h r target key w3")
      have k4: "same_sites w3 w4" using d unfolding registerDeps_def by (rule same_sites_forEach)
      have "w' = w4 \<or> w' = store_meta r target w4"
        using run2 Inr d by (auto simp: w3_def split: option.splits)
      then show ?thesis
        using k2 k3 k4 same_sites_store_meta[of w4 r target]
        by (blast intro: same_sites_trans)
    qed
  qed
  then show ?thesis using f by simp
qed

lemma register_sites:
  "same_sites (case declaration_site args of None \<Rightarrow> w | Some (t, k) \<Rightarrow> snd (fetch_meta h t k w))
     (snd (register h ident lifeCycle args w))"
proof -
  obtain e w' where r: "register h ident lifeCycle args w = (e, w')"
    by (cases "register h ident lifeCycle args w")
  show ?thesis
  proof (cases "targetType_of args")
    case None
    with r show ?thesis by (simp add: register_def declaration_site_def same_sites_refl)
  next
    case (Some tt)
    show ?thesis
    proof (cases "is_object (arg args 0)")
      case False
      with r Some show ?thesis
        by (cases tt) (simp_all add: register_def declaration_site_def same_sites_refl
            register_constructor_def register_property_def register_method_def)
    next
      case True
      with r Some show ?thesis
        by (cases tt) (auto simp: register_def declaration_site_def Let_def
            dest: constructor_sites property_sites method_sites)
    qed
  qed
qed


lemma register_distinct:
  "distinct (map fst (registry w)) \<Longrightarrow>
     distinct (map fst (registry (snd (register h ident lifeCycle args w))))"
proof -
  assume d: "distinct (map fst (registry w))"
  have "registry (case declaration_site args of None \<Rightarrow> w | Some (t, k) \<Rightarrow> snd (fetch_meta h t k w))
          = registry w"
    by (auto simp: fetch_meta_def alloc_def Let_def split: option.splits)
  with register_sites[where args=args and w=w and h=h and ident=ident and lifeCycle=lifeCycle] d show ?thesis
    by (simp add: same_sites_def)
qed

lemma declarations_distinct:
  "distinct (map fst (registry w)) \<Longrightarrow> distinct (map fst (registry (declarations h ds w)))"
  by (induction ds arbitrary: w) (auto simp: register_distinct)










lemma property_again:
  assumes wf: "wf_world w"
    and m: "meta w (target, Undefined) = Some r"
    and run: "register_property h ident target key w = (None, w')"
  shows "meta w' (target, Undefined) = Some r \<and>
         deps (heap w' r) = deps (heap w r) @ [Some (nextref w)] \<and>
         id' (heap w' (nextref w)) = ident \<and> metaKey (heap w' (nextref w)) = key \<and>
         nextref w' = Suc (nextref w)"
proof -
  from run have obj: "is_object target"
    by (auto simp: register_property_def split: if_splits)
  from wf m have r: "r < nextref w" by (auto simp: wf_world_def)
  from m have f: "fetch_meta h target Undefined w = (r, w)" by (simp add: fetch_meta_def)
  from run obj f r m show ?thesis
    by (auto simp: register_property_def alloc_def modify_def store_meta_def registry_set_def
        Let_def new_ResolverMeta_def)
qed


text \<open>
  Claim C3, at the input where the code departs from it. A parameter whose reflected type
  is undefined makes \<^verbatim>\<open>registerParam\<close> throw a TypeError at \<^verbatim>\<open>param.name\<close>, with or without an
  explicit identifier, and nothing is written; so does the parameter decorator on a
  class without reflected parameter types, with the identifier \<^verbatim>\<open>'cfg'\<close> and with none.
\<close>

theorem registerParam_undefined_type_throws:
  "registerParam h Undefined index targetMeta lifeCycle ident w = (Some TypeError, w) \<and>
   fst (register example_host (Str ''cfg'') Undefined [Fn 5 ''Plain'', Undefined, Num 0]
          (empty_world example_host)) = Some TypeError \<and>
   fst (register example_host Undefined Undefined [Fn 5 ''Plain'', Undefined, Num 0]
          (empty_world example_host)) = Some TypeError"
  by (simp add: registerParam_def) (simp add: eval_defs)

text \<open>
  For a reflected type that is present and bears one of the seven names, the check does
  what is said: without a truthy identifier the declaration fails and writes nothing,
  with one it places a new child under the identifier at the index.
\<close>

lemma registerParam_named_simple_type:
  assumes "isSimpleType (Str n)"
  shows "\<not> truthy ident \<Longrightarrow>
           registerParam h (Fn k n) i r lc ident w = (Some (MissingIdentifierError (Str n)), w)"
    and "truthy ident \<Longrightarrow> r < nextref w \<Longrightarrow>
           \<exists>w'. registerParam h (Fn k n) i r lc ident w = (None, w') \<and>
                deps_at (deps (heap w' r)) i = Some (nextref w) \<and>
                id' (heap w' (nextref w)) = ident"
  using assms
  by (auto simp: registerParam_def alloc_def modify_def Let_def deps_at_deps_set or_else_def)

lemma deps_at_Some_deps_set:
  "deps_at xs k = Some c \<Longrightarrow> deps_at xs i = None \<Longrightarrow> deps_at (deps_set xs i v) k = Some c"
  by (auto simp: deps_at_deps_set)











text \<open>
  The position need not come from a parameter: a static property declared first is
  pushed onto the class's own dependencies, and the class declaration then finds
  position 0 taken.
\<close>

lemma static_property_holds_position:
  "deps (heap static_world 0) = [Some 1, Some 2] \<and>
   metaKey (heap static_world 1) = Str ''p'' \<and> id' (heap static_world 2) = Str ''x'' \<and>
   registry_get static_world (Fn 1 ''A'') = Some 0 \<and> nextref static_world = 3"
  by (simp add: world_defs eval_defs)


text \<open>
  Claim C5, at the input where the code departs from it. The factory
  \<^verbatim>\<open>Widgets.make(): string\<close> declared with no identifier is registered without error under
  the identifier \<^verbatim>\<open>String\<close>, its reflected return type; \<^verbatim>\<open>Widgets.build\<close>, with no
  identifier and no reflected return type, is declared without error as well.
\<close>

theorem factory_without_identifier_registers:
  "fst (register example_host Undefined Undefined
          [Fn 4 ''Widgets'', Str ''make'', PropDesc (Fn 6 ''make'') Undefined Undefined]
          (empty_world example_host)) = None \<and>
   id' (heap (snd (register example_host Undefined Undefined
          [Fn 4 ''Widgets'', Str ''make'', PropDesc (Fn 6 ''make'') Undefined Undefined]
          (empty_world example_host))) 0) = Fn 0 ''String'' \<and>
   registry_get (snd (register example_host Undefined Undefined
          [Fn 4 ''Widgets'', Str ''make'', PropDesc (Fn 6 ''make'') Undefined Undefined]
          (empty_world example_host))) (Fn 0 ''String'') = Some 0 \<and>
   fst (register example_host Undefined Undefined
          [Fn 4 ''Widgets'', Str ''build'', PropDesc (Fn 8 ''build'') Undefined Undefined]
          (empty_world example_host)) = None"
  by (simp add: eval_defs)

text \<open>No check looks at the return type: a factory without parameters is always accepted.\<close>

lemma factory_without_parameters_never_fails:
  "is_object target \<Longrightarrow> reflected_params h target key = [] \<Longrightarrow>
     fst (register_method h ident lifeCycle target key (PropDesc v g s) w) = None"
  by (simp add: register_method_def registerDeps_def Let_def split: prod.splits)












text \<open>
  Claim C10. A new descriptor has type \<^verbatim>\<open>TYPE\<close> and lifecycle \<^verbatim>\<open>SINGLETON\<close>; a declaration
  without lifecycle argument, whatever its kind and outcome, leaves the lifecycle of
  every existing descriptor as it was.
\<close>

theorem lifeCycle_default_and_kept:
  "type' (new_ResolverMeta h) = TYPE' \<and> lifeCycle' (new_ResolverMeta h) = SINGLETON h \<and>
   (\<forall>r<nextref w.
      lifeCycle' (heap (snd (register h ident Undefined args w)) r) = lifeCycle' (heap w r))"
  using lifeCycles_kept_register[of w h ident args]
  by (simp add: new_ResolverMeta_def lifeCycles_kept_def)

theorem lifeCycle_default_and_kept_witness:
  "lifeCycle' (heap root_world 0) = Num 2 \<and>
   lifeCycle' (heap (snd (register example_host Undefined Undefined [Fn 3 ''R''] root_world)) 0)
     = Num 2"
proof -
  have l: "lifeCycle' (heap root_world 0) = Num 2" and n: "0 < nextref root_world"
    by (simp_all add: eval_defs)
  from lifeCycle_default_and_kept[of example_host root_world Undefined "[Fn 3 ''R'']"] l n
  show ?thesis by simp
qed

section \<open>The deferred resolution\<close>




end
